theory Spec2Isabelle
  imports Complex_Main
begin

section \<open>Strings, identifiers and time\<close>

text \<open>
  The article service of the blogging platform: the Mongoose model
  \<^verbatim>\<open>backend/models/Article.js\<close> with its \<^verbatim>\<open>pre('save')\<close> hook, and the
  route handlers of the articles router.

  JavaScript strings are modelled as \<^typ>\<open>string\<close>, a list of code units; the code
  units are those of U+0000..U+00FF, so \<open>length\<close> is the JavaScript \<open>.length\<close>.
  ObjectIds (of users, articles and comments) are well-formed identifiers, modelled as
  natural numbers; two ids are equal when their \<open>toString()\<close> are.
  A \<open>Date\<close> is its number of milliseconds since the epoch.
\<close>

type_synonym oid = nat
type_synonym time = int

text \<open>The class \<^verbatim>\<open>\s\<close> of a JavaScript regular expression, on the code units below 256:
  tab, line feed, vertical tab, form feed, carriage return, space, no-break space.\<close>

definition is_space :: "char \<Rightarrow> bool" where
  "is_space c = (of_char c \<in> {9, 10, 11, 12, 13, 32, 160 :: nat})"

text \<open>\<^verbatim>\<open>s.split(/\s+/)\<close>: the pieces of \<open>s\<close> between the maximal runs of whitespace.
  The empty string gives one empty piece; a run at the start or at the end of \<open>s\<close> gives
  an empty first or last piece.\<close>

function split_ws :: "string \<Rightarrow> string list" where
  "split_ws [] = [[]]"
| "split_ws (c # cs) =
     (if is_space c then [] # split_ws (dropWhile is_space cs)
      else (case split_ws cs of [] \<Rightarrow> [[c]] | p # ps \<Rightarrow> (c # p) # ps))"
  by pat_completeness auto
termination
  by (relation "measure length") (auto simp: length_dropWhile_le less_Suc_eq_le)

text \<open>\<^verbatim>\<open>s.trim()\<close>, also the \<open>trim\<close> setter of the schema and the \<open>trim()\<close> sanitizer
  of the validators.\<close>

definition trim :: "string \<Rightarrow> string" where
  "trim s = rev (dropWhile is_space (rev (dropWhile is_space s)))"

text \<open>\<^verbatim>\<open>s.toLowerCase()\<close> on the code units below 256 (the \<open>lowercase\<close> setter of a tag).\<close>

definition to_lower :: "char \<Rightarrow> char" where
  "to_lower c =
     (let n = (of_char c :: nat)
      in if (65 \<le> n \<and> n \<le> 90) \<or> (192 \<le> n \<and> n \<le> 222 \<and> n \<noteq> 215)
         then char_of (n + 32) else c)"

text \<open>\<^verbatim>\<open>s.replace(/[#*`]/g, '')\<close>: every occurrence of the three markers is removed.\<close>

definition strip_markers :: "string \<Rightarrow> string" where
  "strip_markers s = filter (\<lambda>c. c \<notin> {CHR ''#'', CHR ''*'', CHR 0x60}) s"

section \<open>The Article document\<close>

record like =
  like_user :: oid
  like_createdAt :: time

record comment =
  comment_id :: oid
  comment_user :: oid
  comment_content :: string
  comment_createdAt :: time

text \<open>\<open>featuredImage\<close>: an absent \<open>public_id\<close> is the empty string (both are falsy).\<close>

record image =
  public_id :: string
  url :: string

record article =
  aid :: oid
  title :: string
  content :: string
  excerpt :: "string option"
  author :: oid
  tags :: "string list"
  category :: string
  featuredImage :: "image option"
  readTime :: int
  likes :: "like list"
  comments :: "comment list"
  published :: bool
  publishedAt :: "time option"
  views :: int
  bookmarks :: "oid list"
  createdAt :: time
  updatedAt :: time

definition categories :: "string list" where
  "categories = [''Technology'', ''Health'', ''Business'', ''Science'', ''Politics'',
     ''Sports'', ''Entertainment'', ''Other'']"

text \<open>\<^verbatim>\<open>!this.excerpt\<close>: the excerpt is undefined or the empty string.\<close>

definition falsy :: "string option \<Rightarrow> bool" where
  "falsy e = (e = None \<or> e = Some [])"

text \<open>
  The \<^verbatim>\<open>pre('save')\<close> hook of the schema. \<open>isModified\<close> is the document's
  \<^verbatim>\<open>this.isModified(path)\<close>, \<open>now\<close> is \<^verbatim>\<open>new Date()\<close>.
  \<^verbatim>\<open>Math.ceil(wordCount / wordsPerMinute)\<close> is exact: the quotient of a string length
  by 200 is far from the precision of a double.
\<close>

definition wordsPerMinute :: nat where
  "wordsPerMinute = 200"

definition wordCount :: "string \<Rightarrow> nat" where
  "wordCount s = length (split_ws s)"

definition pre_save :: "time \<Rightarrow> (string \<Rightarrow> bool) \<Rightarrow> article \<Rightarrow> article" where
  "pre_save now isModified a =
     (let a1 = (if isModified ''content''
                then a\<lparr>readTime := \<lceil>real (wordCount (content a)) / real wordsPerMinute\<rceil>\<rparr>
                else a);
          a2 = (if isModified ''content'' \<and> falsy (excerpt a1)
                then (let plainText = take 300 (strip_markers (content a1))
                      in a1\<lparr>excerpt :=
                           Some (plainText @ (if length plainText = 300 then ''...'' else ''''))\<rparr>)
                else a1);
          a3 = (if isModified ''published'' \<and> published a2 \<and> publishedAt a2 = None
                then a2\<lparr>publishedAt := Some now\<rparr>
                else a2)
      in a3)"

section \<open>Responses and the document store\<close>

datatype error = BadRequest | Forbidden | NotFound | ServerError

fun status :: "error \<Rightarrow> nat" where
  "status BadRequest = 400"
| "status Forbidden = 403"
| "status NotFound = 404"
| "status ServerError = 500"

type_synonym 'a response = "error + 'a"

text \<open>What a handler does outside the collection: the calls of \<open>deleteImage\<close> and the
  deletions of documents, in the order of the calls.\<close>

datatype event = ImageReleased string | ArticlesDeleted "oid list"

record store =
  docs :: "article list"
  trace :: "event list"

text \<open>The collection keeps one document for an \<open>_id\<close>.\<close>

definition wf_store :: "store \<Rightarrow> bool" where
  "wf_store st = distinct (map aid (docs st))"

definition findById :: "store \<Rightarrow> oid \<Rightarrow> article option" where
  "findById st i = find (\<lambda>a. aid a = i) (docs st)"

text \<open>Writing a loaded document back: the document of that \<open>_id\<close> is replaced.\<close>

definition write_doc :: "store \<Rightarrow> article \<Rightarrow> store" where
  "write_doc st a = st\<lparr>docs := map (\<lambda>x. if aid x = aid a then a else x) (docs st)\<rparr>"

section \<open>Saving a document\<close>

text \<open>\<open>isModified\<close> of a loaded document: a path is modified when its value is no longer
  the loaded one.\<close>

definition isModified :: "article \<Rightarrow> article \<Rightarrow> string \<Rightarrow> bool" where
  "isModified old new p =
     ((p = ''title'' \<and> title new \<noteq> title old) \<or>
      (p = ''content'' \<and> content new \<noteq> content old) \<or>
      (p = ''excerpt'' \<and> excerpt new \<noteq> excerpt old) \<or>
      (p = ''author'' \<and> author new \<noteq> author old) \<or>
      (p = ''tags'' \<and> tags new \<noteq> tags old) \<or>
      (p = ''category'' \<and> category new \<noteq> category old) \<or>
      (p = ''featuredImage'' \<and> featuredImage new \<noteq> featuredImage old) \<or>
      (p = ''readTime'' \<and> readTime new \<noteq> readTime old) \<or>
      (p = ''likes'' \<and> likes new \<noteq> likes old) \<or>
      (p = ''comments'' \<and> comments new \<noteq> comments old) \<or>
      (p = ''published'' \<and> published new \<noteq> published old) \<or>
      (p = ''publishedAt'' \<and> publishedAt new \<noteq> publishedAt old) \<or>
      (p = ''views'' \<and> views new \<noteq> views old) \<or>
      (p = ''bookmarks'' \<and> bookmarks new \<noteq> bookmarks old))"

text \<open>The validators of the schema, run before the hook on the modified paths and on
  the comments that are new or changed (\<open>cs\<close>): what the hook writes is not validated.\<close>

definition validate :: "(string \<Rightarrow> bool) \<Rightarrow> comment list \<Rightarrow> article \<Rightarrow> bool" where
  "validate modified cs a =
     ((if modified ''title'' then title a \<noteq> [] \<and> length (title a) \<le> 200 else True) \<and>
      (if modified ''content'' then content a \<noteq> [] else True) \<and>
      (if modified ''excerpt''
       then (case excerpt a of None \<Rightarrow> True | Some e \<Rightarrow> length e \<le> 300) else True) \<and>
      (if modified ''tags'' then list_all (\<lambda>t. length t \<le> 30) (tags a) else True) \<and>
      (if modified ''category'' then category a \<in> set categories else True) \<and>
      list_all (\<lambda>c. comment_content c \<noteq> [] \<and> length (comment_content c) \<le> 1000) cs)"

text \<open>\<^verbatim>\<open>article.save()\<close> on a loaded document \<open>old\<close> that the handler changed to
  \<open>new\<close>: nothing is written when nothing changed; otherwise validation (a failure is
  thrown, and caught by the handler as a 500), the timestamp, the hook.\<close>

definition save :: "time \<Rightarrow> article \<Rightarrow> article \<Rightarrow> error + article" where
  "save now old new =
     (if new = old then Inr new
      else if validate (isModified old new)
                (filter (\<lambda>c. c \<notin> set (comments old)) (comments new)) new
      then Inr (pre_save now (isModified old new) (new\<lparr>updatedAt := now\<rparr>))
      else Inl ServerError)"

section \<open>Creating and updating an article\<close>

text \<open>The body of \<^verbatim>\<open>POST /\<close>. An absent title or content is the empty string: the
  validators reject both alike.\<close>

record create_body =
  b_title :: string
  b_content :: string
  b_excerpt :: "string option"
  b_tags :: "string list option"
  b_category :: "string option"
  b_published :: "bool option"

text \<open>The \<open>express-validator\<close> chain of \<^verbatim>\<open>POST /\<close>.\<close>

definition valid_create :: "create_body \<Rightarrow> bool" where
  "valid_create b =
     (1 \<le> length (b_title b) \<and> length (b_title b) \<le> 200 \<and>
      1 \<le> length (b_content b) \<and>
      (case b_category b of None \<Rightarrow> True | Some c \<Rightarrow> c \<in> set categories))"

text \<open>\<^verbatim>\<open>new Article({title, content, excerpt, author, tags: tags || [],
  category: category || 'Other', published: published || false})\<close>, with the setters and
  the defaults of the schema; \<open>i\<close> is the fresh \<open>_id\<close>.\<close>

definition new_article :: "time \<Rightarrow> oid \<Rightarrow> oid \<Rightarrow> create_body \<Rightarrow> article" where
  "new_article now i user b =
     \<lparr>aid = i,
      title = trim (b_title b),
      content = b_content b,
      excerpt = b_excerpt b,
      author = user,
      tags = map (\<lambda>t. map to_lower (trim t)) (case b_tags b of None \<Rightarrow> [] | Some ts \<Rightarrow> ts),
      category = (case b_category b of None \<Rightarrow> ''Other''
                  | Some c \<Rightarrow> if c = [] then ''Other'' else c),
      featuredImage = None,
      readTime = 1,
      likes = [],
      comments = [],
      published = (case b_published b of None \<Rightarrow> False | Some p \<Rightarrow> p),
      publishedAt = None,
      views = 0,
      bookmarks = [],
      createdAt = now,
      updatedAt = now\<rparr>"

text \<open>On a new document every path given to the constructor is modified.\<close>

definition isModified_new :: "create_body \<Rightarrow> string \<Rightarrow> bool" where
  "isModified_new b p =
     (p \<in> set [''title'', ''content'', ''author'', ''tags'', ''category'', ''published'']
      \<or> (p = ''excerpt'' \<and> b_excerpt b \<noteq> None))"

definition create_article ::
  "time \<Rightarrow> oid \<Rightarrow> store \<Rightarrow> oid \<Rightarrow> create_body \<Rightarrow> article response \<times> store" where
  "create_article now i st user b =
     (if valid_create b then
        (let a = new_article now i user b in
         if validate (isModified_new b) [] a then
           (let a' = pre_save now (isModified_new b) a
            in (Inr a', st\<lparr>docs := docs st @ [a']\<rparr>))
         else (Inl ServerError, st))
      else (Inl BadRequest, st))"

text \<open>The body of \<^verbatim>\<open>PUT /:id\<close>: \<^verbatim>\<open>Object.assign(article, req.body)\<close> assigns every
  key of the body, so every path of the schema can be given.\<close>

record update_body =
  u_title :: "string option"
  u_content :: "string option"
  u_excerpt :: "string option"
  u_author :: "oid option"
  u_tags :: "string list option"
  u_category :: "string option"
  u_featuredImage :: "image option"
  u_readTime :: "int option"
  u_likes :: "like list option"
  u_comments :: "comment list option"
  u_published :: "bool option"
  u_publishedAt :: "time option"
  u_views :: "int option"
  u_bookmarks :: "oid list option"

definition valid_update :: "update_body \<Rightarrow> bool" where
  "valid_update u =
     ((case u_title u of None \<Rightarrow> True | Some t \<Rightarrow> 1 \<le> length t \<and> length t \<le> 200) \<and>
      (case u_content u of None \<Rightarrow> True | Some c \<Rightarrow> 1 \<le> length c) \<and>
      (case u_category u of None \<Rightarrow> True | Some c \<Rightarrow> c \<in> set categories))"

definition or_else :: "'a option \<Rightarrow> 'a \<Rightarrow> 'a" where
  "or_else v d = (case v of None \<Rightarrow> d | Some x \<Rightarrow> x)"

definition assign :: "article \<Rightarrow> update_body \<Rightarrow> article" where
  "assign a u =
     a\<lparr>title := or_else (map_option trim (u_title u)) (title a),
       content := or_else (u_content u) (content a),
       excerpt := (case u_excerpt u of None \<Rightarrow> excerpt a | Some e \<Rightarrow> Some e),
       author := or_else (u_author u) (author a),
       tags := or_else (map_option (map (\<lambda>t. map to_lower (trim t))) (u_tags u)) (tags a),
       category := or_else (u_category u) (category a),
       featuredImage := (case u_featuredImage u of None \<Rightarrow> featuredImage a | Some im \<Rightarrow> Some im),
       readTime := or_else (u_readTime u) (readTime a),
       likes := or_else (u_likes u) (likes a),
       comments := or_else (u_comments u) (comments a),
       published := or_else (u_published u) (published a),
       publishedAt := (case u_publishedAt u of None \<Rightarrow> publishedAt a | Some t \<Rightarrow> Some t),
       views := or_else (u_views u) (views a),
       bookmarks := or_else (u_bookmarks u) (bookmarks a)\<rparr>"

definition update_article ::
  "time \<Rightarrow> store \<Rightarrow> oid \<Rightarrow> oid \<Rightarrow> update_body \<Rightarrow> article response \<times> store" where
  "update_article now st i user u =
     (if valid_update u then
        (case findById st i of
           None \<Rightarrow> (Inl NotFound, st)
         | Some a \<Rightarrow>
             if author a \<noteq> user then (Inl Forbidden, st)
             else (case save now a (assign a u) of
                     Inl e \<Rightarrow> (Inl e, st)
                   | Inr a' \<Rightarrow> (Inr a', write_doc st a')))
      else (Inl BadRequest, st))"

section \<open>Reading articles\<close>

text \<open>\<^verbatim>\<open>GET /:id\<close>. \<open>requester\<close> is \<open>req.user\<close> of \<open>optionalAuth\<close>. The response carries
  the fields of the loaded document, with \<open>views + 1\<close>.\<close>

definition get_article ::
  "time \<Rightarrow> store \<Rightarrow> oid \<Rightarrow> oid option \<Rightarrow> article response \<times> store" where
  "get_article now st i requester =
     (case findById st i of
        None \<Rightarrow> (Inl NotFound, st)
      | Some a \<Rightarrow>
          (let isAuthor = (requester = Some (author a)) in
           if \<not> published a \<and> \<not> isAuthor then (Inl NotFound, st)
           else (Inr (a\<lparr>views := views a + 1\<rparr>),
                 write_doc st (a\<lparr>views := views a + 1, updatedAt := now\<rparr>))))"

text \<open>\<^verbatim>\<open>parseInt(x) || d\<close>: \<open>None\<close> is \<open>NaN\<close>.\<close>

definition parse_or :: "int option \<Rightarrow> int \<Rightarrow> int" where
  "parse_or v d = (case v of None \<Rightarrow> d | Some n \<Rightarrow> if n = 0 then d else n)"

text \<open>\<^verbatim>\<open>.skip(skip).limit(limit)\<close>: the store refuses a negative skip (the handler
  answers 500) and reads a negative limit as its absolute value.\<close>

definition skip_limit :: "int \<Rightarrow> int \<Rightarrow> 'a list \<Rightarrow> error + 'a list" where
  "skip_limit skip limit xs =
     (if skip < 0 then Inl ServerError else Inr (take (nat \<bar>limit\<bar>) (drop (nat skip) xs)))"

text \<open>\<^verbatim>\<open>.sort(...)\<close>: the documents in the order \<open>before\<close>; documents that the sort keys
  do not separate stay in the order of the collection.\<close>

fun insort_by :: "('a \<Rightarrow> 'a \<Rightarrow> bool) \<Rightarrow> 'a \<Rightarrow> 'a list \<Rightarrow> 'a list" where
  "insort_by before x [] = [x]"
| "insort_by before x (y # ys) =
     (if before x y then x # y # ys else y # insort_by before x ys)"

definition sort_by :: "('a \<Rightarrow> 'a \<Rightarrow> bool) \<Rightarrow> 'a list \<Rightarrow> 'a list" where
  "sort_by before xs = foldr (insort_by before) xs []"

text \<open>A descending sort key: a missing value (null) comes last.\<close>

definition key_ge :: "'a::linorder option \<Rightarrow> 'a option \<Rightarrow> bool" where
  "key_ge x y =
     (case y of None \<Rightarrow> True | Some b \<Rightarrow> (case x of None \<Rightarrow> False | Some a \<Rightarrow> b \<le> a))"

definition key_gt :: "'a::linorder option \<Rightarrow> 'a option \<Rightarrow> bool" where
  "key_gt x y = (key_ge x y \<and> x \<noteq> y)"

record feed =
  r_articles :: "article list"
  r_page :: int
  r_limit :: int
  r_total :: nat
  r_pages :: int

record list_query =
  q_page :: "int option"
  q_limit :: "int option"
  q_tag :: "string option"
  q_category :: "string option"
  q_search :: "string option"
  q_author :: "oid option"

text \<open>The query of \<^verbatim>\<open>GET /\<close>, starting from \<^verbatim>\<open>{ published: true }\<close>. \<open>re\<close> is the
  compiled search pattern, when a search is asked for.\<close>

definition feed_filter :: "list_query \<Rightarrow> (string \<Rightarrow> bool) option \<Rightarrow> article \<Rightarrow> bool" where
  "feed_filter q re a =
     (published a \<and>
      (case q_tag q of None \<Rightarrow> True
       | Some t \<Rightarrow> if trim t = [] then True else trim t \<in> set (tags a)) \<and>
      (case q_category q of None \<Rightarrow> True
       | Some c \<Rightarrow> if trim c = [] then True else if c = ''All'' then True
                   else category a = trim c) \<and>
      (case q_author q of None \<Rightarrow> True | Some u \<Rightarrow> author a = u) \<and>
      (case re of None \<Rightarrow> True
       | Some m \<Rightarrow> m (title a) \<or> m (content a) \<or> list_ex m (tags a)))"

text \<open>\<^verbatim>\<open>GET /\<close>, the public feed. \<open>regex\<close> compiles a case-insensitive pattern
  (\<open>None\<close>: the pattern is refused, and the handler answers 500). The response lists a
  projection of each selected document; the model returns the documents.\<close>

definition get_articles ::
  "(string \<Rightarrow> (string \<Rightarrow> bool) option) \<Rightarrow> store \<Rightarrow> list_query \<Rightarrow> oid option
     \<Rightarrow> feed response" where
  "get_articles regex st q requester =
     (let page = parse_or (q_page q) 1;
          limit = parse_or (q_limit q) 10;
          skip = (page - 1) * limit;
          searchTerm = (case q_search q of None \<Rightarrow> [] | Some s \<Rightarrow> trim s)
      in if searchTerm \<noteq> [] \<and> regex searchTerm = None then Inl ServerError
         else
           (let re = (if searchTerm = [] then None else regex searchTerm);
                found = filter (feed_filter q re) (docs st);
                sorted = sort_by (\<lambda>x y. key_ge (publishedAt x) (publishedAt y)) found
            in case skip_limit skip limit sorted of
                 Inl e \<Rightarrow> Inl e
               | Inr articles \<Rightarrow>
                   Inr \<lparr>r_articles = articles, r_page = page, r_limit = limit,
                        r_total = length found,
                        r_pages = \<lceil>real (length found) / real_of_int limit\<rceil>\<rparr>))"

section \<open>Trending\<close>

text \<open>The fields of a stored like that hold a number (the \<open>user\<close> reference as its id,
  the date as its milliseconds); the generated \<open>_id\<close> of a like is not modelled. The
  size of the array \<open>likes\<close> is not a field of the stored document.\<close>

definition like_field :: "like \<Rightarrow> string \<Rightarrow> int option" where
  "like_field l k =
     (if k = ''user'' then Some (int (like_user l))
      else if k = ''createdAt'' then Some (like_createdAt l)
      else None)"

text \<open>The key of a descending sort on a path that runs through an array: the largest
  value that the elements have at the path, and null when no element has one.\<close>

definition array_sort_key :: "int option list \<Rightarrow> int option" where
  "array_sort_key vs =
     (case List.map_filter id vs of [] \<Rightarrow> None | x # xs \<Rightarrow> Some (fold max xs x))"

text \<open>The value the store reads at the sort path \<^verbatim>\<open>likes.length\<close>: the field
  \<open>length\<close> of the elements of the array \<open>likes\<close>.\<close>

definition likes_length :: "article \<Rightarrow> int option" where
  "likes_length a = array_sort_key (map (\<lambda>l. like_field l ''length'') (likes a))"

text \<open>\<^verbatim>\<open>.sort({ views: -1, 'likes.length': -1, publishedAt: -1 })\<close>.\<close>

definition trending_before :: "article \<Rightarrow> article \<Rightarrow> bool" where
  "trending_before x y =
     (views y < views x \<or>
      (views x = views y \<and>
       (key_gt (likes_length x) (likes_length y) \<or>
        (likes_length x = likes_length y \<and> key_ge (publishedAt x) (publishedAt y)))))"

definition day_ms :: int where
  "day_ms = 86400000"

text \<open>\<^verbatim>\<open>dateThreshold.setDate(dateThreshold.getDate() - days)\<close>: the same time of day,
  \<open>days\<close> days earlier (with the offset of the server's time zone unchanged in between).\<close>

definition dateThreshold :: "time \<Rightarrow> int \<Rightarrow> time" where
  "dateThreshold now days = now - days * day_ms"

definition trending_filter :: "time \<Rightarrow> article \<Rightarrow> bool" where
  "trending_filter threshold a =
     (published a \<and> (case publishedAt a of None \<Rightarrow> False | Some t \<Rightarrow> threshold \<le> t))"

record trending_query =
  t_page :: "int option"
  t_limit :: "int option"
  t_days :: "int option"

definition get_trending :: "time \<Rightarrow> store \<Rightarrow> trending_query \<Rightarrow> feed response" where
  "get_trending now st q =
     (let page = parse_or (t_page q) 1;
          limit = parse_or (t_limit q) 10;
          skip = (page - 1) * limit;
          days = parse_or (t_days q) 7;
          found = filter (trending_filter (dateThreshold now days)) (docs st);
          sorted = sort_by trending_before found
      in case skip_limit skip limit sorted of
           Inl e \<Rightarrow> Inl e
         | Inr articles \<Rightarrow>
             Inr \<lparr>r_articles = articles, r_page = page, r_limit = limit,
                  r_total = length found,
                  r_pages = \<lceil>real (length found) / real_of_int limit\<rceil>\<rparr>)"

section \<open>Likes and bookmarks\<close>

record like_result =
  likesCount :: nat
  isLiked :: bool

text \<open>\<^verbatim>\<open>POST /:id/like\<close>. The pushed like takes the default \<open>createdAt\<close>, the current
  time.\<close>

definition like_article ::
  "time \<Rightarrow> store \<Rightarrow> oid \<Rightarrow> oid \<Rightarrow> like_result response \<times> store" where
  "like_article now st i user =
     (case findById st i of
        None \<Rightarrow> (Inl NotFound, st)
      | Some a \<Rightarrow>
          (let existingLike = find (\<lambda>l. like_user l = user) (likes a);
               a1 = (if existingLike \<noteq> None
                     then a\<lparr>likes := filter (\<lambda>l. like_user l \<noteq> user) (likes a)\<rparr>
                     else a\<lparr>likes := likes a @ [\<lparr>like_user = user, like_createdAt = now\<rparr>]\<rparr>)
           in case save now a a1 of
                Inl e \<Rightarrow> (Inl e, st)
              | Inr a' \<Rightarrow>
                  (Inr \<lparr>likesCount = length (likes a'), isLiked = (existingLike = None)\<rparr>,
                   write_doc st a')))"

text \<open>\<^verbatim>\<open>POST /:id/bookmark\<close>. \<open>pull\<close> removes every occurrence of the user; the
  response is the new \<open>isBookmarked\<close>.\<close>

definition bookmark_article ::
  "time \<Rightarrow> store \<Rightarrow> oid \<Rightarrow> oid \<Rightarrow> bool response \<times> store" where
  "bookmark_article now st i user =
     (case findById st i of
        None \<Rightarrow> (Inl NotFound, st)
      | Some a \<Rightarrow>
          (let isBookmarked = (user \<in> set (bookmarks a));
               a1 = (if isBookmarked
                     then a\<lparr>bookmarks := removeAll user (bookmarks a)\<rparr>
                     else a\<lparr>bookmarks := bookmarks a @ [user]\<rparr>)
           in case save now a a1 of
                Inl e \<Rightarrow> (Inl e, st)
              | Inr a' \<Rightarrow> (Inr (\<not> isBookmarked), write_doc st a')))"

section \<open>Comments\<close>





section \<open>Bulk operations\<close>

text \<open>The selector \<^verbatim>\<open>{ _id: { $in: articleIds }, author: req.user._id }\<close>.\<close>

definition owned_in :: "oid list \<Rightarrow> oid \<Rightarrow> article \<Rightarrow> bool" where
  "owned_in ids user a = (aid a \<in> set ids \<and> author a = user)"

text \<open>The \<open>public_id\<close> that the loop over the found articles hands to \<open>deleteImage\<close>.\<close>

definition image_ids :: "article list \<Rightarrow> string list" where
  "image_ids as =
     concat (map (\<lambda>a. case featuredImage a of
                        None \<Rightarrow> []
                      | Some im \<Rightarrow> if public_id im \<noteq> [] then [public_id im] else []) as)"

text \<open>\<^verbatim>\<open>DELETE /bulk/delete\<close>. An error of \<open>deleteImage\<close> is caught and logged, so the
  loop always reaches \<open>deleteMany\<close>. The response is the number of articles found.\<close>

definition bulk_delete :: "store \<Rightarrow> oid \<Rightarrow> oid list \<Rightarrow> nat response \<times> store" where
  "bulk_delete st user articleIds =
     (if articleIds = [] then (Inl BadRequest, st)
      else
        (let articles = filter (owned_in articleIds user) (docs st) in
         if length articles \<noteq> length articleIds then (Inl Forbidden, st)
         else (Inr (length articles),
               st\<lparr>docs := filter (\<lambda>a. \<not> owned_in articleIds user a) (docs st),
                  trace := trace st @ map ImageReleased (image_ids articles)
                             @ [ArticlesDeleted (map aid articles)]\<rparr>)))"

text \<open>An object without keys.\<close>

definition no_updates :: update_body where
  "no_updates =
     \<lparr>u_title = None, u_content = None, u_excerpt = None, u_author = None, u_tags = None,
      u_category = None, u_featuredImage = None, u_readTime = None, u_likes = None,
      u_comments = None, u_published = None, u_publishedAt = None, u_views = None,
      u_bookmarks = None\<rparr>"

definition allowedUpdates :: "string list" where
  "allowedUpdates = [''published'', ''category'']"

text \<open>The loop over \<^verbatim>\<open>Object.keys(updates)\<close>: a key goes into \<open>filteredUpdates\<close>
  when \<open>allowedUpdates\<close> includes it.\<close>

definition keep :: "string \<Rightarrow> 'a option \<Rightarrow> 'a option" where
  "keep key v = (if key \<in> set allowedUpdates then v else None)"

definition filteredUpdates :: "update_body \<Rightarrow> update_body" where
  "filteredUpdates updates =
     \<lparr>u_title = keep ''title'' (u_title updates),
      u_content = keep ''content'' (u_content updates),
      u_excerpt = keep ''excerpt'' (u_excerpt updates),
      u_author = keep ''author'' (u_author updates),
      u_tags = keep ''tags'' (u_tags updates),
      u_category = keep ''category'' (u_category updates),
      u_featuredImage = keep ''featuredImage'' (u_featuredImage updates),
      u_readTime = keep ''readTime'' (u_readTime updates),
      u_likes = keep ''likes'' (u_likes updates),
      u_comments = keep ''comments'' (u_comments updates),
      u_published = keep ''published'' (u_published updates),
      u_publishedAt = keep ''publishedAt'' (u_publishedAt updates),
      u_views = keep ''views'' (u_views updates),
      u_bookmarks = keep ''bookmarks'' (u_bookmarks updates)\<rparr>"

text \<open>\<^verbatim>\<open>if (filteredUpdates.published === true) filteredUpdates.publishedAt = new Date()\<close>.\<close>

definition stamp_publishedAt :: "time \<Rightarrow> update_body \<Rightarrow> update_body" where
  "stamp_publishedAt now filtered =
     (if u_published filtered = Some True then filtered\<lparr>u_publishedAt := Some now\<rparr>
      else filtered)"

text \<open>\<^verbatim>\<open>updateMany(selector, update)\<close> on one selected document: the keys of the update
  are set, and the timestamps of the schema set \<open>updatedAt\<close>. The hook of \<open>save\<close> does
  not run.\<close>

definition update_one :: "time \<Rightarrow> update_body \<Rightarrow> article \<Rightarrow> article" where
  "update_one now update a = (assign a update)\<lparr>updatedAt := now\<rparr>"

text \<open>\<^verbatim>\<open>PUT /bulk/update\<close>. \<open>modifiedCount\<close> is the number of selected documents that
  the update changed.\<close>

definition bulk_update ::
  "time \<Rightarrow> store \<Rightarrow> oid \<Rightarrow> oid list \<Rightarrow> update_body \<Rightarrow> nat response \<times> store" where
  "bulk_update now st user articleIds updates =
     (if articleIds = [] then (Inl BadRequest, st)
      else if filteredUpdates updates = no_updates then (Inl BadRequest, st)
      else
        (let update = stamp_publishedAt now (filteredUpdates updates);
             selected = owned_in articleIds user;
             modifiedCount =
               length (filter (\<lambda>a. selected a \<and> update_one now update a \<noteq> a) (docs st))
         in (Inr modifiedCount,
             st\<lparr>docs := map (\<lambda>a. if selected a then update_one now update a else a)
                          (docs st)\<rparr>)))"

section \<open>The router\<close>

text \<open>The \<open>GET\<close> routes of the router, in the order of their registration. A request
  goes to the first route whose pattern matches its path, segment by segment; a
  parameter such as \<open>:id\<close> matches every non-empty segment (the framework compares
  a literal segment without regard to case; the model compares it exactly). The middleware
  \<open>validateObjectId\<close> of \<open>/:id\<close> answers 400 for a segment that is not an ObjectId and
  does not pass the request on.\<close>

datatype segment = Lit string | Param

fun segment_matches :: "segment \<Rightarrow> string \<Rightarrow> bool" where
  "segment_matches (Lit l) s = (l = s)"
| "segment_matches Param s = (s \<noteq> [])"

definition route_matches :: "segment list \<Rightarrow> string list \<Rightarrow> bool" where
  "route_matches pattern path = list_all2 segment_matches pattern path"

datatype get_handler =
  GetArticles | GetArticle | MyArticles | Bookmarks | UserArticles | StatsOverview | Trending

definition get_routes :: "(segment list \<times> get_handler) list" where
  "get_routes =
     [([], GetArticles),
      ([Param], GetArticle),
      ([Lit ''user'', Lit ''my-articles''], MyArticles),
      ([Lit ''user'', Lit ''bookmarks''], Bookmarks),
      ([Lit ''user'', Param], UserArticles),
      ([Lit ''stats'', Lit ''overview''], StatsOverview),
      ([Lit ''trending''], Trending)]"

definition dispatch_get :: "string list \<Rightarrow> get_handler option" where
  "dispatch_get path = map_option snd (find (\<lambda>r. route_matches (fst r) path) get_routes)"

section \<open>The notions of the specification, for comparison\<close>

text \<open>The claim's word count, for comparison with \<open>wordCount\<close>: the number of words of
  the content, a word being a maximal run of characters that are not whitespace.\<close>

fun count_words :: "bool \<Rightarrow> string \<Rightarrow> nat" where
  "count_words in_word [] = 0"
| "count_words in_word (c # cs) =
     (if is_space c then count_words False cs
      else (if in_word then 0 else 1) + count_words True cs)"

definition spec_wordCount :: "string \<Rightarrow> nat" where
  "spec_wordCount s = count_words False s"


text \<open>The visibility rule of the specification, for comparison with the handlers.\<close>

definition visible :: "oid option \<Rightarrow> article \<Rightarrow> bool" where
  "visible requester a = (published a \<or> requester = Some (author a))"

text \<open>The ordering of the specification, for comparison: views, then the number of likes,
  then \<open>publishedAt\<close>, each descending.\<close>

definition spec_trending_before :: "article \<Rightarrow> article \<Rightarrow> bool" where
  "spec_trending_before x y =
     (views y < views x \<or>
      (views x = views y \<and>
       (length (likes y) < length (likes x) \<or>
        (length (likes x) = length (likes y) \<and> key_ge (publishedAt x) (publishedAt y)))))"

section \<open>Sample data\<close>

text \<open>An empty collection, and a body with the given content and no excerpt.\<close>

definition empty_store :: store where
  "empty_store = \<lparr>docs = [], trace = []\<rparr>"

definition draft_body :: "string \<Rightarrow> create_body" where
  "draft_body c =
     \<lparr>b_title = ''T'', b_content = c, b_excerpt = None, b_tags = None,
      b_category = None, b_published = None\<rparr>"

text \<open>A stored draft of author \<open>u\<close>.\<close>

definition sample_article :: "oid \<Rightarrow> oid \<Rightarrow> article" where
  "sample_article i u =
     \<lparr>aid = i, title = ''T'', content = ''one two'', excerpt = Some ''one two'', author = u,
      tags = [], category = ''Other'', featuredImage = None, readTime = 1, likes = [],
      comments = [], published = False, publishedAt = None, views = 0, bookmarks = [],
      createdAt = 0, updatedAt = 0\<rparr>"

text \<open>Sample documents: the article published at \<open>t\<close>, likes of the given users, a
  collection with an article of user 7 and one of user 8, the default query of
  \<open>/trending\<close>.\<close>

definition published_at :: "time \<Rightarrow> article \<Rightarrow> article" where
  "published_at t a = a\<lparr>published := True, publishedAt := Some t\<rparr>"

definition likes_of :: "oid list \<Rightarrow> like list" where
  "likes_of us = map (\<lambda>u. \<lparr>like_user = u, like_createdAt = 0\<rparr>) us"

definition default_trending :: trending_query where
  "default_trending = \<lparr>t_page = None, t_limit = None, t_days = None\<rparr>"

definition two_authors :: store where
  "two_authors = \<lparr>docs = [sample_article 1 7, sample_article 2 8], trace = []\<rparr>"

text \<open>More sample data: the default query of the feed, a collection with a draft of
  user 7 and a published article of user 8, an article with a stored image, and an
  article of user 7 that carries a comment of user 8.\<close>

definition default_query :: list_query where
  "default_query =
     \<lparr>q_page = None, q_limit = None, q_tag = None, q_category = None, q_search = None,
      q_author = None\<rparr>"

definition draft_and_post :: store where
  "draft_and_post =
     \<lparr>docs = [sample_article 1 7, published_at 3 (sample_article 2 8)], trace = []\<rparr>"

definition with_image :: "string \<Rightarrow> article \<Rightarrow> article" where
  "with_image p a = a\<lparr>featuredImage := Some \<lparr>public_id = p, url = ''/uploads/'' @ p\<rparr>\<rparr>"

definition three_articles :: store where
  "three_articles =
     \<lparr>docs = [with_image ''img1'' (sample_article 1 7), sample_article 2 8, sample_article 3 7],
      trace = []\<rparr>"



section \<open>Properties of the hook\<close>

lemma ceil_wordsPerMinute: "\<lceil>real n / real wordsPerMinute\<rceil> = (int n + 199) div 200"
  unfolding wordsPerMinute_def by (simp add: ceiling_divide_eq_div) linarith

lemma split_ws_nonempty: "split_ws s \<noteq> []"
  by (induction s rule: split_ws.induct) (auto split: list.splits)

lemma wordCount_pos: "1 \<le> wordCount s"
  using split_ws_nonempty [of s] by (cases "split_ws s") (auto simp: wordCount_def)

lemma Other_category: "''Other'' \<in> set categories"
  by (simp add: categories_def)

lemma pre_save_readTime:
  "readTime (pre_save now m a) =
     (if m ''content'' then \<lceil>real (wordCount (content a)) / real wordsPerMinute\<rceil>
      else readTime a)"
  by (simp add: pre_save_def Let_def)


lemma pre_save_publishedAt:
  "publishedAt (pre_save now m a) =
     (if m ''published'' \<and> published a \<and> publishedAt a = None then Some now
      else publishedAt a)"
  by (simp add: pre_save_def Let_def)

lemma pre_save_frame:
  "aid (pre_save now m a) = aid a"
  "title (pre_save now m a) = title a"
  "content (pre_save now m a) = content a"
  "author (pre_save now m a) = author a"
  "tags (pre_save now m a) = tags a"
  "category (pre_save now m a) = category a"
  "featuredImage (pre_save now m a) = featuredImage a"
  "likes (pre_save now m a) = likes a"
  "comments (pre_save now m a) = comments a"
  "published (pre_save now m a) = published a"
  "views (pre_save now m a) = views a"
  "bookmarks (pre_save now m a) = bookmarks a"
  "createdAt (pre_save now m a) = createdAt a"
  "updatedAt (pre_save now m a) = updatedAt a"
  by (simp_all add: pre_save_def Let_def)

text \<open>When no path that the hook reads is modified, the hook changes nothing.\<close>

lemma pre_save_idle:
  "\<not> m ''content'' \<Longrightarrow> \<not> m ''published'' \<Longrightarrow> pre_save now m a = a"
  by (simp add: pre_save_def)

subsection \<open>Read time\<close>

text \<open>After a write that changed the content, the read time is the number of pieces of
  \<open>content.split(/\s+/)\<close> divided by 200 and rounded up, and it is at least 1.\<close>

lemma readTime_after_content_write:
  assumes "m ''content''"
  shows "readTime (pre_save now m a) = max 1 \<lceil>real (wordCount (content a)) / 200\<rceil>"
    and "1 \<le> readTime (pre_save now m a)"
proof -
  have "1 \<le> (int (wordCount (content a)) + 199) div 200"
    using wordCount_pos [of "content a"] by linarith
  then show "readTime (pre_save now m a) = max 1 \<lceil>real (wordCount (content a)) / 200\<rceil>"
    and "1 \<le> readTime (pre_save now m a)"
    using assms ceil_wordsPerMinute [of "wordCount (content a)"]
    by (simp_all add: pre_save_readTime wordsPerMinute_def)
qed

text \<open>The pieces of the split and the words of the content: whitespace at the start of
  the content (or an empty content) adds one piece, whitespace at its end another.\<close>

lemma count_words_True:
  "count_words True s =
     (if s \<noteq> [] \<and> \<not> is_space (hd s) then count_words False s - 1 else count_words False s)"
  by (cases s) auto

lemma count_words_dropWhile: "count_words False (dropWhile is_space s) = count_words False s"
  by (induction s) auto

lemma last_dropWhile_space:
  "dropWhile is_space s \<noteq> [] \<Longrightarrow> last (dropWhile is_space s) = last s"
  by (induction s) auto

lemma dropWhile_all_space:
  "dropWhile is_space s = [] \<Longrightarrow> s \<noteq> [] \<Longrightarrow> is_space (last s)"
  by (induction s) (auto split: if_splits)

lemma wordCount_spec_wordCount:
  "wordCount s =
     spec_wordCount s + (if s = [] \<or> is_space (hd s) then 1 else 0)
       + (if s \<noteq> [] \<and> is_space (last s) then 1 else 0)"
  unfolding wordCount_def spec_wordCount_def
proof (induction s rule: split_ws.induct)
  case 1
  then show ?case by simp
next
  case (2 c cs)
  show ?case
  proof (cases "is_space c")
    case True
    let ?t = "dropWhile is_space cs"
    have ih: "length (split_ws ?t) =
       count_words False ?t + (if ?t = [] \<or> is_space (hd ?t) then 1 else 0)
         + (if ?t \<noteq> [] \<and> is_space (last ?t) then 1 else 0)"
      using 2(1) True by simp
    show ?thesis
    proof (cases "?t = []")
      case e: True
      have "is_space (last (c # cs))"
        using e True dropWhile_all_space [of cs] by (cases cs) auto
      with e True ih show ?thesis
        using count_words_dropWhile [of cs] by simp
    next
      case ne: False
      then have "\<not> is_space (hd ?t)" by (simp add: hd_dropWhile)
      moreover have "last (c # cs) = last ?t"
        using ne last_dropWhile_space [of cs] by (cases cs) auto
      ultimately show ?thesis
        using ne True ih count_words_dropWhile [of cs] by simp
    qed
  next
    case False
    have len: "length (split_ws (c # cs)) = length (split_ws cs)"
      using False split_ws_nonempty [of cs] by (cases "split_ws cs") auto
    have ih: "length (split_ws cs) =
       count_words False cs + (if cs = [] \<or> is_space (hd cs) then 1 else 0)
         + (if cs \<noteq> [] \<and> is_space (last cs) then 1 else 0)"
      using 2(2) False by simp
    show ?thesis
    proof (cases cs)
      case Nil
      with False show ?thesis by simp
    next
      case (Cons d ds)
      then show ?thesis
        using False len ih count_words_True [of cs] by (auto split: if_splits)
    qed
  qed
qed

text \<open>For a content that neither starts nor ends with whitespace, the pieces are the
  words, and the read time is the one of the specification.\<close>

lemma readTime_without_outer_whitespace:
  assumes "m ''content''" and "content a \<noteq> []"
    and "\<not> is_space (hd (content a))" and "\<not> is_space (last (content a))"
  shows "readTime (pre_save now m a) = max 1 \<lceil>real (spec_wordCount (content a)) / 200\<rceil>"
proof -
  have "wordCount (content a) = spec_wordCount (content a)"
    using assms(2-4) by (simp add: wordCount_spec_wordCount)
  then show ?thesis
    using readTime_after_content_write(1) [of m now a] assms(1) by simp
qed

lemma wordCount_200_trailing: "wordCount (concat (replicate 200 ''a '')) = 201"
  by code_simp

lemma spec_wordCount_200_trailing: "spec_wordCount (concat (replicate 200 ''a '')) = 200"
  by code_simp

text \<open>
  Claim C3 (read time). The claim: after every write that changes the content,
  \<open>readTime = max(1, ceil(wordCount(content) / 200))\<close>, where \<open>wordCount\<close> is the number
  of whitespace-separated words. The hook counts the pieces of \<open>content.split(/\s+/)\<close>,
  and a content that ends with whitespace has an empty last piece: an article of 200
  words followed by a space is created with a read time of 2 minutes, where the claim
  gives 1.
\<close>

theorem readTime_trailing_whitespace:
  "map_sum id readTime
     (fst (create_article 0 1 empty_store 7 (draft_body (concat (replicate 200 ''a ''))))) = Inr 2
   \<and> max 1 \<lceil>real (spec_wordCount (concat (replicate 200 ''a ''))) / 200\<rceil> = (1::int)"
proof -
  have ne: "concat (replicate 200 ''a '') \<noteq> []" by code_simp
  have "valid_create (draft_body (concat (replicate 200 ''a '')))"
    using ne by (simp add: valid_create_def draft_body_def Suc_le_eq)
  moreover have "validate (isModified_new (draft_body (concat (replicate 200 ''a '')))) []
      (new_article 0 1 7 (draft_body (concat (replicate 200 ''a ''))))"
    using ne by (simp add: validate_def new_article_def draft_body_def isModified_new_def
        trim_def is_space_def categories_def)
  ultimately show ?thesis
    by (simp add: create_article_def Let_def pre_save_readTime isModified_new_def
        new_article_def draft_body_def wordCount_200_trailing spec_wordCount_200_trailing
        wordsPerMinute_def)
qed

subsection \<open>Excerpt\<close>


lemma update_article_Inr:
  assumes "update_article now st i user u = (Inr a', st')"
    and "findById st i = Some a"
  shows "a' = pre_save now (isModified a (assign a u)) ((assign a u)\<lparr>updatedAt := now\<rparr>)
         \<or> (a' = a \<and> assign a u = a)"
    and "st' = write_doc st a'"
    and "author a = user"
  using assms
  by (auto simp: update_article_def save_def split: if_splits sum.splits)




subsection \<open>Publication date\<close>

text \<open>The hook stamps \<open>publishedAt\<close> only when it is absent, and never changes a date
  that is there.\<close>

lemma pre_save_keeps_publishedAt:
  "publishedAt a = Some t \<Longrightarrow> publishedAt (pre_save now m a) = Some t"
  by (simp add: pre_save_publishedAt)

text \<open>The first publication stamps the date, on the create and on the update path.\<close>

lemma publishedAt_first_publish:
  "publishedAt a = None \<Longrightarrow> published a \<Longrightarrow> m ''published'' \<Longrightarrow>
     publishedAt (pre_save now m a) = Some now"
  "\<not> published a \<Longrightarrow> publishedAt (pre_save now m a) = publishedAt a"
  by (simp_all add: pre_save_publishedAt)

text \<open>The single update keeps a publication date, unless the body itself gives one.\<close>

lemma update_article_keeps_publishedAt:
  assumes "update_article now st i user u = (Inr a', st')" and "findById st i = Some a"
    and "publishedAt a = Some t" and "u_publishedAt u = None"
  shows "publishedAt a' = Some t"
proof -
  have "publishedAt (assign a u) = Some t"
    using assms(3,4) by (simp add: assign_def)
  then show ?thesis
    using update_article_Inr(1) [OF assms(1,2)] assms(3)
    by (auto simp: pre_save_publishedAt)
qed

text \<open>
  Claim C1 (\<open>publishedAt\<close> is set once). The claim: \<open>publishedAt\<close> is never overwritten by
  an update, and a bulk update that sets \<open>published = true\<close> stamps only the records that
  lack a date. The bulk update puts \<open>publishedAt = new Date()\<close> into the update of every
  selected article: an article published at time 100 and bulk-updated with
  \<open>published = true\<close> at time 500 is stored with \<open>publishedAt = 500\<close>.
\<close>

theorem bulk_update_overwrites_publishedAt:
  "bulk_update 500 \<lparr>docs = [published_at 100 (sample_article 1 7)], trace = []\<rparr> 7 [1]
       (no_updates\<lparr>u_published := Some True\<rparr>)
     = (Inr 1, \<lparr>docs = [(published_at 500 (sample_article 1 7))\<lparr>updatedAt := 500\<rparr>], trace = []\<rparr>)
   \<and> publishedAt (published_at 100 (sample_article 1 7)) = Some 100
   \<and> publishedAt ((published_at 500 (sample_article 1 7))\<lparr>updatedAt := 500\<rparr>) = Some 500"
  by (simp add: bulk_update_def filteredUpdates_def keep_def allowedUpdates_def
      stamp_publishedAt_def update_one_def assign_def owned_in_def published_at_def
      sample_article_def no_updates_def or_else_def)

text \<open>The single update assigns every key of the body: a \<open>publishedAt\<close> in the body
  replaces the stored date.\<close>

lemma update_article_assigns_publishedAt:
  "map_sum id publishedAt
     (fst (update_article 500 \<lparr>docs = [published_at 100 (sample_article 1 7)], trace = []\<rparr> 1 7
        (no_updates\<lparr>u_publishedAt := Some 999\<rparr>))) = Inr (Some 999)"
  by (simp add: update_article_def valid_update_def findById_def save_def validate_def
      isModified_def no_updates_def sample_article_def assign_def or_else_def published_at_def
      pre_save_publishedAt)

section \<open>Properties of likes and bookmarks\<close>

lemma findById_aid: "findById st i = Some a \<Longrightarrow> aid a = i"
  by (auto simp: findById_def find_Some_iff)

lemma findById_mem: "findById st i = Some a \<Longrightarrow> a \<in> set (docs st)"
  by (auto simp: findById_def find_Some_iff)

lemma find_map_replace:
  "find (\<lambda>a. aid a = i) xs = Some a \<Longrightarrow> aid a' = i \<Longrightarrow>
   find (\<lambda>a. aid a = i) (map (\<lambda>x. if aid x = i then a' else x) xs) = Some a'"
  by (induction xs) (auto split: if_splits)

lemma findById_write_doc:
  "findById st i = Some a \<Longrightarrow> aid a' = i \<Longrightarrow> findById (write_doc st a') i = Some a'"
  using find_map_replace [of i "docs st" a a'] by (auto simp: findById_def write_doc_def)



lemma isModified_likes_only:
  "isModified a (a\<lparr>likes := ls\<rparr>) p = (p = ''likes'' \<and> ls \<noteq> likes a)"
  by (simp add: isModified_def)

lemma isModified_bookmarks_only:
  "isModified a (a\<lparr>bookmarks := bs\<rparr>) p = (p = ''bookmarks'' \<and> bs \<noteq> bookmarks a)"
  by (simp add: isModified_def)


lemma likes_update_neq: "ls \<noteq> likes a \<Longrightarrow> a\<lparr>likes := ls\<rparr> \<noteq> a"
proof
  assume "ls \<noteq> likes a" and "a\<lparr>likes := ls\<rparr> = a"
  from this(2) have "likes (a\<lparr>likes := ls\<rparr>) = likes a" by (rule arg_cong)
  with \<open>ls \<noteq> likes a\<close> show False by simp
qed

lemma save_likes:
  assumes "ls \<noteq> likes a"
  shows "save now a (a\<lparr>likes := ls\<rparr>) = Inr (a\<lparr>likes := ls, updatedAt := now\<rparr>)"
proof -
  have "a\<lparr>likes := ls\<rparr> \<noteq> a" using assms likes_update_neq by blast
  then show ?thesis
    by (simp add: save_def validate_def isModified_likes_only pre_save_def)
qed

lemma bookmarks_update_neq: "bs \<noteq> bookmarks a \<Longrightarrow> a\<lparr>bookmarks := bs\<rparr> \<noteq> a"
proof
  assume "bs \<noteq> bookmarks a" and "a\<lparr>bookmarks := bs\<rparr> = a"
  from this(2) have "bookmarks (a\<lparr>bookmarks := bs\<rparr>) = bookmarks a" by (rule arg_cong)
  with \<open>bs \<noteq> bookmarks a\<close> show False by simp
qed

lemma save_bookmarks:
  assumes "bs \<noteq> bookmarks a"
  shows "save now a (a\<lparr>bookmarks := bs\<rparr>) = Inr (a\<lparr>bookmarks := bs, updatedAt := now\<rparr>)"
proof -
  have "a\<lparr>bookmarks := bs\<rparr> \<noteq> a" using assms bookmarks_update_neq by blast
  then show ?thesis
    by (simp add: save_def validate_def isModified_bookmarks_only pre_save_def)
qed

lemma removeAll_neq: "x \<in> set xs \<Longrightarrow> removeAll x xs \<noteq> xs"
proof
  assume m: "x \<in> set xs" and e: "removeAll x xs = xs"
  have "x \<notin> set (removeAll x xs)" by simp
  with m e show False by simp
qed

lemma find_None_filter: "find P xs = None \<Longrightarrow> filter P xs = []"
  by (induction xs) (auto split: if_splits)

lemma find_Some_filter: "find P xs = Some x \<Longrightarrow> filter P xs \<noteq> []"
  by (induction xs) (auto split: if_splits)

lemma filter_neq_shorter:
  "find P xs = Some x \<Longrightarrow> filter (\<lambda>y. \<not> P y) xs \<noteq> xs"
  by (metis filter_id_conv find_Some_iff nth_mem)

lemma like_article_found:
  assumes "findById st i = Some a"
  shows "like_article now st i user =
     (if user \<in> like_user ` set (likes a)
      then (Inr \<lparr>likesCount = length (filter (\<lambda>l. like_user l \<noteq> user) (likes a)), isLiked = False\<rparr>,
            write_doc st (a\<lparr>likes := filter (\<lambda>l. like_user l \<noteq> user) (likes a), updatedAt := now\<rparr>))
      else (Inr \<lparr>likesCount = Suc (length (likes a)), isLiked = True\<rparr>,
            write_doc st (a\<lparr>likes := likes a @ [\<lparr>like_user = user, like_createdAt = now\<rparr>],
                              updatedAt := now\<rparr>)))"
proof (cases "find (\<lambda>l. like_user l = user) (likes a)")
  case None
  then have nin: "user \<notin> like_user ` set (likes a)"
    by (auto simp: find_None_iff)
  have "save now a (a\<lparr>likes := likes a @ [\<lparr>like_user = user, like_createdAt = now\<rparr>]\<rparr>) =
      Inr (a\<lparr>likes := likes a @ [\<lparr>like_user = user, like_createdAt = now\<rparr>], updatedAt := now\<rparr>)"
    by (rule save_likes) simp
  with None nin assms show ?thesis
    by (simp add: like_article_def pre_save_frame)
next
  case (Some l)
  then have mem: "user \<in> like_user ` set (likes a)"
    by (auto simp: find_Some_iff)
  have "filter (\<lambda>l. like_user l \<noteq> user) (likes a) \<noteq> likes a"
    using filter_neq_shorter [OF Some] by simp
  then have "save now a (a\<lparr>likes := filter (\<lambda>l. like_user l \<noteq> user) (likes a)\<rparr>) =
      Inr (a\<lparr>likes := filter (\<lambda>l. like_user l \<noteq> user) (likes a), updatedAt := now\<rparr>)"
    by (rule save_likes)
  with Some mem assms show ?thesis
    by (simp add: like_article_def)
qed

lemma bookmark_article_found:
  assumes "findById st i = Some a"
  shows "bookmark_article now st i user =
     (if user \<in> set (bookmarks a)
      then (Inr False, write_doc st (a\<lparr>bookmarks := removeAll user (bookmarks a), updatedAt := now\<rparr>))
      else (Inr True, write_doc st (a\<lparr>bookmarks := bookmarks a @ [user], updatedAt := now\<rparr>)))"
proof (cases "user \<in> set (bookmarks a)")
  case True
  then have "removeAll user (bookmarks a) \<noteq> bookmarks a"
    by (rule removeAll_neq)
  then have "save now a (a\<lparr>bookmarks := removeAll user (bookmarks a)\<rparr>) =
      Inr (a\<lparr>bookmarks := removeAll user (bookmarks a), updatedAt := now\<rparr>)"
    by (rule save_bookmarks)
  with True assms show ?thesis by (simp add: bookmark_article_def)
next
  case False
  have "save now a (a\<lparr>bookmarks := bookmarks a @ [user]\<rparr>) =
      Inr (a\<lparr>bookmarks := bookmarks a @ [user], updatedAt := now\<rparr>)"
    by (rule save_bookmarks) simp
  with False assms show ?thesis by (simp add: bookmark_article_def)
qed








text \<open>The toggles keep the invariant of the data model: at most one entry for a user.\<close>

lemma toggle_keeps_single_entry:
  assumes "findById st i = Some a"
  shows "distinct (map like_user (likes a)) \<Longrightarrow>
           \<exists>a'. findById (snd (like_article now st i user)) i = Some a' \<and>
                 distinct (map like_user (likes a'))"
    and "distinct (bookmarks a) \<Longrightarrow>
           \<exists>a'. findById (snd (bookmark_article now st i user)) i = Some a' \<and>
                 distinct (bookmarks a')"
proof -
  have i: "aid a = i" using assms by (rule findById_aid)
  show "distinct (map like_user (likes a)) \<Longrightarrow>
           \<exists>a'. findById (snd (like_article now st i user)) i = Some a' \<and>
                 distinct (map like_user (likes a'))"
    using assms i
    by (auto simp: like_article_found findById_write_doc distinct_map_filter)
  show "distinct (bookmarks a) \<Longrightarrow>
           \<exists>a'. findById (snd (bookmark_article now st i user)) i = Some a' \<and>
                 distinct (bookmarks a')"
    using assms i
    by (auto simp: bookmark_article_found findById_write_doc distinct_removeAll)
qed

section \<open>Properties of reading\<close>

lemma set_insort_by: "set (insort_by before x xs) = insert x (set xs)"
  by (induction xs) auto

lemma set_sort_by: "set (sort_by before xs) = set xs"
  by (induction xs) (auto simp: sort_by_def set_insort_by)

lemma length_insort_by: "length (insort_by before x xs) = Suc (length xs)"
  by (induction xs) auto

lemma length_sort_by: "length (sort_by before xs) = length xs"
  by (induction xs) (auto simp: sort_by_def length_insort_by)

lemma skip_limit_subset: "skip_limit skip limit xs = Inr ys \<Longrightarrow> set ys \<subseteq> set xs"
  by (auto simp: skip_limit_def split: if_splits dest: in_set_takeD in_set_dropD)

lemma get_articles_selected:
  assumes "get_articles regex st q requester = Inr r"
  shows "\<exists>re. set (r_articles r) \<subseteq> {a \<in> set (docs st). feed_filter q re a}"
proof -
  let ?needle = "case q_search q of None \<Rightarrow> [] | Some s \<Rightarrow> trim s"
  let ?re = "if ?needle = [] then None else regex ?needle"
  let ?sorted = "sort_by (\<lambda>x y. key_ge (publishedAt x) (publishedAt y))
      (filter (feed_filter q ?re) (docs st))"
  obtain ys where ys: "skip_limit ((parse_or (q_page q) 1 - 1) * parse_or (q_limit q) 10)
      (parse_or (q_limit q) 10) ?sorted = Inr ys" and r: "r_articles r = ys"
    using assms by (auto simp: get_articles_def Let_def split: if_splits sum.splits)
  have "set ys \<subseteq> set ?sorted" using ys by (rule skip_limit_subset)
  then have "set (r_articles r) \<subseteq> {a \<in> set (docs st). feed_filter q ?re a}"
    using r by (auto simp: set_sort_by)
  then show ?thesis ..
qed

text \<open>
  Claim C4 (visibility), as stated, fails for the list. The claim: the list and the
  detail apply the same filter, and the author's own drafts appear to the author. The
  feed selects with \<open>published: true\<close> whoever asks: user 7 reads the own draft 1 in
  detail, and the feed answers user 7 with article 2 alone.
\<close>

theorem feed_hides_own_draft:
  "visible (Some 7) (sample_article 1 7)
   \<and> map_sum id aid (fst (get_article 5 draft_and_post 1 (Some 7))) = Inr 1
   \<and> map_sum id (\<lambda>r. map aid (r_articles r))
        (get_articles (\<lambda>p. None) draft_and_post default_query (Some 7)) = Inr [2]"
  by (simp add: visible_def sample_article_def get_article_def findById_def draft_and_post_def
      get_articles_def default_query_def parse_or_def skip_limit_def sort_by_def feed_filter_def
      published_at_def Let_def)

text \<open>
  Claim C4, amended. The detail applies the visibility filter: an existing article is
  answered (with its views incremented) if and only if it is published or the requester
  is authenticated and is its author; otherwise the answer is the 404 of a missing
  article, and nothing is written. The feed applies the stricter filter
  \<open>published = true\<close> for every requester: every listed article is a published article
  of the collection, so a draft never appears in the feed, the author's own included.
\<close>

theorem detail_and_feed_visibility:
  "(findById st i = Some a \<longrightarrow>
      (if visible requester a
       then fst (get_article now st i requester) = Inr (a\<lparr>views := views a + 1\<rparr>) \<and>
            map_option views (findById (snd (get_article now st i requester)) i)
              = Some (views a + 1)
       else get_article now st i requester = (Inl NotFound, st) \<and> status NotFound = 404))
   \<and> (get_articles regex st q requester = Inr r \<longrightarrow>
        (\<forall>x \<in> set (r_articles r). published x \<and> x \<in> set (docs st)))"
proof (intro conjI impI)
  assume f: "findById st i = Some a"
  then have "aid a = i" by (rule findById_aid)
  then have "findById (write_doc st (a\<lparr>views := views a + 1, updatedAt := now\<rparr>)) i
      = Some (a\<lparr>views := views a + 1, updatedAt := now\<rparr>)"
    using f by (simp add: findById_write_doc)
  with f show "if visible requester a
       then fst (get_article now st i requester) = Inr (a\<lparr>views := views a + 1\<rparr>) \<and>
            map_option views (findById (snd (get_article now st i requester)) i)
              = Some (views a + 1)
       else get_article now st i requester = (Inl NotFound, st) \<and> status NotFound = 404"
    by (auto simp: get_article_def visible_def Let_def)
next
  assume "get_articles regex st q requester = Inr r"
  then obtain re where "set (r_articles r) \<subseteq> {a \<in> set (docs st). feed_filter q re a}"
    using get_articles_selected by blast
  then show "\<forall>x \<in> set (r_articles r). published x \<and> x \<in> set (docs st)"
    by (auto simp: feed_filter_def)
qed

text \<open>A draft asked for by another user, and the feed asked for by the draft's author.\<close>

theorem detail_and_feed_visibility_witness:
  "findById draft_and_post 1 = Some (sample_article 1 7)
   \<and> \<not> visible (Some 9) (sample_article 1 7)
   \<and> get_article 5 draft_and_post 1 (Some 9) = (Inl NotFound, draft_and_post)
   \<and> get_articles (\<lambda>p. None) draft_and_post default_query (Some 7)
        = Inr (projr (get_articles (\<lambda>p. None) draft_and_post default_query (Some 7)))
   \<and> list_all published
        (r_articles (projr (get_articles (\<lambda>p. None) draft_and_post default_query (Some 7))))"
proof -
  have f: "findById draft_and_post 1 = Some (sample_article 1 7)"
    by (simp add: findById_def draft_and_post_def sample_article_def)
  have v: "\<not> visible (Some 9) (sample_article 1 7)"
    by (simp add: visible_def sample_article_def)
  have g: "get_articles (\<lambda>p. None) draft_and_post default_query (Some 7)
        = Inr (projr (get_articles (\<lambda>p. None) draft_and_post default_query (Some 7)))"
    by (simp add: get_articles_def default_query_def parse_or_def skip_limit_def Let_def)
  show ?thesis
    using detail_and_feed_visibility [where st = draft_and_post and i = 1 and a = "sample_article 1 7"
        and requester = "Some 9" and now = 5]
      detail_and_feed_visibility [where st = draft_and_post and regex = "\<lambda>p. None" and q = default_query
        and requester = "Some 7"
        and r = "projr (get_articles (\<lambda>p. None) draft_and_post default_query (Some 7))"]
      f v g
    by (simp add: list_all_iff)
qed

section \<open>Properties of comments\<close>











section \<open>Properties of the bulk operations\<close>

lemma owned_length_le:
  assumes "distinct (map aid xs)"
  shows "length (filter (owned_in ids user) xs)
           \<le> card {i \<in> set ids. \<exists>a \<in> set xs. aid a = i \<and> author a = user}"
proof -
  let ?M = "filter (owned_in ids user) xs"
  have "distinct (map aid ?M)" using assms by (rule distinct_map_filter)
  then have "length ?M = card (set (map aid ?M))"
    by (metis distinct_card length_map)
  also have "\<dots> \<le> card {i \<in> set ids. \<exists>a \<in> set xs. aid a = i \<and> author a = user}"
    by (rule card_mono) (auto simp: owned_in_def)
  finally show ?thesis .
qed

lemma bulk_delete_refused:
  assumes "wf_store st" and "b \<in> set ids"
    and "\<forall>a \<in> set (docs st). aid a = b \<longrightarrow> author a \<noteq> user"
  shows "bulk_delete st user ids = (Inl Forbidden, st)"
proof -
  let ?S = "{i \<in> set ids. \<exists>a \<in> set (docs st). aid a = i \<and> author a = user}"
  have "?S \<subseteq> set ids - {b}" using assms(3) by auto
  then have "card ?S \<le> card (set ids - {b})" by (intro card_mono) auto
  also have "\<dots> < card (set ids)" using assms(2) by (intro card_Diff1_less) auto
  also have "\<dots> \<le> length ids" by (rule card_length)
  finally have "card ?S < length ids" .
  moreover have "length (filter (owned_in ids user) (docs st)) \<le> card ?S"
    using assms(1) by (simp add: wf_store_def owned_length_le)
  ultimately have "length (filter (owned_in ids user) (docs st)) \<noteq> length ids" by linarith
  moreover have "ids \<noteq> []" using assms(2) by auto
  ultimately show ?thesis by (simp add: bulk_delete_def Let_def)
qed

lemma distinct_aid_eq:
  "distinct (map aid xs) \<Longrightarrow> x \<in> set xs \<Longrightarrow> y \<in> set xs \<Longrightarrow> aid x = aid y \<Longrightarrow> x = y"
  by (simp add: distinct_map inj_on_def)

lemma find_filter_None:
  "(\<And>a. a \<in> set xs \<Longrightarrow> aid a = i \<Longrightarrow> \<not> P a) \<Longrightarrow> find (\<lambda>a. aid a = i) (filter P xs) = None"
  by (auto simp: find_None_iff)

lemma find_owned:
  "a \<in> set xs \<Longrightarrow> distinct (map aid xs) \<Longrightarrow> find (\<lambda>x. aid x = aid a) xs = Some a"
  by (induction xs) (auto simp: rev_image_eqI)

text \<open>
  Claim C5 (bulk delete is all or nothing). In a collection with one document for an id:
  when some requested id has no article owned by the requester (there is no such
  article, or it belongs to another author), the call fails with 403 and the collection
  is unchanged. When the call succeeds, every requested id was an article of the
  requester and is gone, exactly the requested articles are deleted, and the images of
  the targeted articles are released before the deletion.
\<close>

theorem bulk_delete_all_or_nothing:
  assumes "wf_store st"
  shows "((\<exists>i \<in> set ids. \<forall>a \<in> set (docs st). aid a = i \<longrightarrow> author a \<noteq> user) \<longrightarrow>
            bulk_delete st user ids = (Inl Forbidden, st) \<and> status Forbidden = 403)
       \<and> (\<forall>n st'. bulk_delete st user ids = (Inr n, st') \<longrightarrow>
            n = length ids \<and>
            (\<forall>i \<in> set ids. (\<exists>a. findById st i = Some a \<and> author a = user) \<and>
                              findById st' i = None) \<and>
            docs st' = filter (\<lambda>a. aid a \<notin> set ids) (docs st) \<and>
            trace st' = trace st
              @ map ImageReleased (image_ids (filter (\<lambda>a. aid a \<in> set ids) (docs st)))
              @ [ArticlesDeleted (map aid (filter (\<lambda>a. aid a \<in> set ids) (docs st)))])"
proof (intro conjI impI allI)
  assume "\<exists>i \<in> set ids. \<forall>a \<in> set (docs st). aid a = i \<longrightarrow> author a \<noteq> user"
  then show "bulk_delete st user ids = (Inl Forbidden, st)"
    using bulk_delete_refused [OF assms] by blast
next
  show "status Forbidden = 403" by simp
next
  fix n st'
  assume ok: "bulk_delete st user ids = (Inr n, st')"
  have d: "distinct (map aid (docs st))" using assms by (simp add: wf_store_def)
  have all: "\<exists>a \<in> set (docs st). aid a = i \<and> author a = user" if "i \<in> set ids" for i
  proof (rule ccontr)
    assume "\<not> (\<exists>a \<in> set (docs st). aid a = i \<and> author a = user)"
    then have "bulk_delete st user ids = (Inl Forbidden, st)"
      using bulk_delete_refused [OF assms that] by blast
    with ok show False by simp
  qed
  have own: "author a = user" if h1: "a \<in> set (docs st)" and h2: "aid a \<in> set ids" for a
  proof -
    obtain a0 where "a0 \<in> set (docs st)" "aid a0 = aid a" "author a0 = user"
      using all [OF h2] by blast
    then show ?thesis using distinct_aid_eq [OF d h1, of a0] by auto
  qed
  have same: "filter (owned_in ids user) (docs st) = filter (\<lambda>a. aid a \<in> set ids) (docs st)"
    using own by (auto simp: owned_in_def intro: filter_cong)
  have same': "filter (\<lambda>a. \<not> owned_in ids user a) (docs st) = filter (\<lambda>a. aid a \<notin> set ids) (docs st)"
    using own by (auto simp: owned_in_def intro: filter_cong)
  have n: "n = length ids"
    and st': "st' = st\<lparr>docs := filter (\<lambda>a. \<not> owned_in ids user a) (docs st),
        trace := trace st @ map ImageReleased (image_ids (filter (owned_in ids user) (docs st)))
                   @ [ArticlesDeleted (map aid (filter (owned_in ids user) (docs st)))]\<rparr>"
    using ok by (auto simp: bulk_delete_def Let_def split: if_splits)
  show "n = length ids" by (rule n)
  show "docs st' = filter (\<lambda>a. aid a \<notin> set ids) (docs st)"
    using st' same' by simp
  show "trace st' = trace st
      @ map ImageReleased (image_ids (filter (\<lambda>a. aid a \<in> set ids) (docs st)))
      @ [ArticlesDeleted (map aid (filter (\<lambda>a. aid a \<in> set ids) (docs st)))]"
    using st' same by simp
  show "\<forall>i \<in> set ids. (\<exists>a. findById st i = Some a \<and> author a = user) \<and> findById st' i = None"
  proof
    fix i assume i: "i \<in> set ids"
    obtain a where a: "a \<in> set (docs st)" "aid a = i" "author a = user"
      using all [OF i] by blast
    have "findById st i = Some a"
      using find_owned [OF a(1) d] a(2) by (simp add: findById_def)
    moreover have "docs st' = filter (\<lambda>a. aid a \<notin> set ids) (docs st)"
      using st' same' by simp
    then have "findById st' i = None"
      using i by (auto simp: findById_def find_None_iff)
    ultimately show "(\<exists>a. findById st i = Some a \<and> author a = user) \<and> findById st' i = None"
      using a(3) by simp
  qed
qed

text \<open>User 7 owns articles 1 and 3: with the article 2 of user 8 or the unknown id 4 in
  the list nothing is deleted; the list of 1 and 3 releases the image, then deletes.\<close>

theorem bulk_delete_all_or_nothing_witness:
  "wf_store three_articles
   \<and> bulk_delete three_articles 7 [1, 2] = (Inl Forbidden, three_articles)
   \<and> bulk_delete three_articles 7 [1, 4] = (Inl Forbidden, three_articles)
   \<and> bulk_delete three_articles 7 [1, 3]
       = (Inr 2, \<lparr>docs = [sample_article 2 8],
                  trace = [ImageReleased ''img1'', ArticlesDeleted [1, 3]]\<rparr>)
   \<and> findById \<lparr>docs = [sample_article 2 8],
                 trace = [ImageReleased ''img1'', ArticlesDeleted [1, 3]]\<rparr> 3 = None"
proof -
  let ?st' = "\<lparr>docs = [sample_article 2 8],
                 trace = [ImageReleased ''img1'', ArticlesDeleted [1, 3]]\<rparr>"
  have wf: "wf_store three_articles"
    by (simp add: wf_store_def three_articles_def sample_article_def with_image_def)
  have b2: "\<exists>i \<in> set [1, 2]. \<forall>a \<in> set (docs three_articles). aid a = i \<longrightarrow> author a \<noteq> 7"
    by (simp add: three_articles_def sample_article_def with_image_def)
  have b4: "\<exists>i \<in> set [1, 4]. \<forall>a \<in> set (docs three_articles). aid a = i \<longrightarrow> author a \<noteq> 7"
    by (simp add: three_articles_def sample_article_def with_image_def)
  have ok: "bulk_delete three_articles 7 [1, 3] = (Inr 2, ?st')"
    by (simp add: bulk_delete_def owned_in_def image_ids_def three_articles_def
        sample_article_def with_image_def)
  have r2: "bulk_delete three_articles 7 [1, 2] = (Inl Forbidden, three_articles)"
    using bulk_delete_all_or_nothing [OF wf, of "[1, 2]" 7, THEN conjunct1] b2 by blast
  have r4: "bulk_delete three_articles 7 [1, 4] = (Inl Forbidden, three_articles)"
    using bulk_delete_all_or_nothing [OF wf, of "[1, 4]" 7, THEN conjunct1] b4 by blast
  have "\<forall>i \<in> set [1, 3]. (\<exists>a. findById three_articles i = Some a \<and> author a = 7) \<and>
      findById ?st' i = None"
    using bulk_delete_all_or_nothing [OF wf, of "[1, 3]" 7, THEN conjunct2, rule_format, OF ok]
    by blast
  then have gone: "findById ?st' 3 = None" by simp
  from wf r2 r4 ok gone show ?thesis by blast
qed

lemma zip_map_changed:
  "length (filter (\<lambda>(a, a'). a' \<noteq> a) (zip xs (map f xs))) = length (filter (\<lambda>a. f a \<noteq> a) xs)"
  by (induction xs) auto

lemma filteredUpdates_allowed:
  "filteredUpdates u = no_updates\<lparr>u_published := u_published u, u_category := u_category u\<rparr>"
  by (simp add: filteredUpdates_def keep_def allowedUpdates_def no_updates_def)

lemma filteredUpdates_empty:
  "(filteredUpdates u = no_updates) = (u_published u = None \<and> u_category u = None)"
proof
  assume "filteredUpdates u = no_updates"
  then have "u_published (filteredUpdates u) = u_published no_updates"
    and "u_category (filteredUpdates u) = u_category no_updates"
    by simp_all
  then show "u_published u = None \<and> u_category u = None"
    by (simp add: filteredUpdates_allowed no_updates_def)
next
  assume "u_published u = None \<and> u_category u = None"
  then show "filteredUpdates u = no_updates"
    by (simp add: filteredUpdates_allowed no_updates_def)
qed

text \<open>What the bulk update writes into a selected document.\<close>

lemma update_one_filtered:
  "update_one now (stamp_publishedAt now (filteredUpdates u)) a =
     a\<lparr>published := (case u_published u of None \<Rightarrow> published a | Some p \<Rightarrow> p),
       category := (case u_category u of None \<Rightarrow> category a | Some c \<Rightarrow> c),
       publishedAt := (if u_published u = Some True then Some now else publishedAt a),
       updatedAt := now\<rparr>"
  by (simp add: update_one_def stamp_publishedAt_def filteredUpdates_allowed assign_def
      or_else_def no_updates_def split: option.splits)

text \<open>
  Claim C6 (bulk update is partial-permissive). With a non-empty id list and at least
  one of \<open>published\<close> and \<open>category\<close> in the updates, the call succeeds. An article that
  is not in the list or not owned by the requester is left as it is. An owned article
  of the list takes the \<open>published\<close> and the \<open>category\<close> of the updates and keeps its
  other fields; the other keys of the updates have no effect on the result.
  \<open>modifiedCount\<close> is the number of documents that differ after the call.
\<close>

theorem bulk_update_partial:
  assumes "ids \<noteq> []" and "u_published u \<noteq> None \<or> u_category u \<noteq> None"
  shows "\<exists>n st'. bulk_update now st user ids u = (Inr n, st') \<and>
      length (docs st') = length (docs st) \<and> trace st' = trace st \<and>
      n = length (filter (\<lambda>(a, a'). a' \<noteq> a) (zip (docs st) (docs st'))) \<and>
      (\<forall>k < length (docs st).
         if aid (docs st ! k) \<in> set ids \<and> author (docs st ! k) = user
         then published (docs st' ! k)
                = (case u_published u of None \<Rightarrow> published (docs st ! k) | Some p \<Rightarrow> p) \<and>
              category (docs st' ! k)
                = (case u_category u of None \<Rightarrow> category (docs st ! k) | Some c \<Rightarrow> c) \<and>
              aid (docs st' ! k) = aid (docs st ! k) \<and>
              title (docs st' ! k) = title (docs st ! k) \<and>
              content (docs st' ! k) = content (docs st ! k) \<and>
              excerpt (docs st' ! k) = excerpt (docs st ! k) \<and>
              author (docs st' ! k) = author (docs st ! k) \<and>
              tags (docs st' ! k) = tags (docs st ! k) \<and>
              featuredImage (docs st' ! k) = featuredImage (docs st ! k) \<and>
              readTime (docs st' ! k) = readTime (docs st ! k) \<and>
              likes (docs st' ! k) = likes (docs st ! k) \<and>
              comments (docs st' ! k) = comments (docs st ! k) \<and>
              views (docs st' ! k) = views (docs st ! k) \<and>
              bookmarks (docs st' ! k) = bookmarks (docs st ! k) \<and>
              createdAt (docs st' ! k) = createdAt (docs st ! k)
         else docs st' ! k = docs st ! k) \<and>
      bulk_update now st user ids u =
        bulk_update now st user ids
          (no_updates\<lparr>u_published := u_published u, u_category := u_category u\<rparr>)"
proof -
  let ?g = "update_one now (stamp_publishedAt now (filteredUpdates u))"
  let ?f = "\<lambda>a. if owned_in ids user a then ?g a else a"
  let ?st' = "st\<lparr>docs := map ?f (docs st)\<rparr>"
  let ?n = "length (filter (\<lambda>a. owned_in ids user a \<and> ?g a \<noteq> a) (docs st))"
  have r: "bulk_update now st user ids u = (Inr ?n, ?st')"
    using assms by (auto simp: bulk_update_def filteredUpdates_empty Let_def)
  have n: "?n = length (filter (\<lambda>(a, a'). a' \<noteq> a) (zip (docs st) (docs ?st')))"
  proof -
    have "(\<lambda>a. owned_in ids user a \<and> ?g a \<noteq> a) = (\<lambda>a. ?f a \<noteq> a)"
      by auto
    then show ?thesis by (simp add: zip_map_changed)
  qed
  have fields: "\<forall>k < length (docs st).
         if aid (docs st ! k) \<in> set ids \<and> author (docs st ! k) = user
         then published (docs ?st' ! k)
                = (case u_published u of None \<Rightarrow> published (docs st ! k) | Some p \<Rightarrow> p) \<and>
              category (docs ?st' ! k)
                = (case u_category u of None \<Rightarrow> category (docs st ! k) | Some c \<Rightarrow> c) \<and>
              aid (docs ?st' ! k) = aid (docs st ! k) \<and>
              title (docs ?st' ! k) = title (docs st ! k) \<and>
              content (docs ?st' ! k) = content (docs st ! k) \<and>
              excerpt (docs ?st' ! k) = excerpt (docs st ! k) \<and>
              author (docs ?st' ! k) = author (docs st ! k) \<and>
              tags (docs ?st' ! k) = tags (docs st ! k) \<and>
              featuredImage (docs ?st' ! k) = featuredImage (docs st ! k) \<and>
              readTime (docs ?st' ! k) = readTime (docs st ! k) \<and>
              likes (docs ?st' ! k) = likes (docs st ! k) \<and>
              comments (docs ?st' ! k) = comments (docs st ! k) \<and>
              views (docs ?st' ! k) = views (docs st ! k) \<and>
              bookmarks (docs ?st' ! k) = bookmarks (docs st ! k) \<and>
              createdAt (docs ?st' ! k) = createdAt (docs st ! k)
         else docs ?st' ! k = docs st ! k"
    by (simp add: owned_in_def update_one_filtered)
  have "filteredUpdates (no_updates\<lparr>u_published := u_published u, u_category := u_category u\<rparr>)
      = filteredUpdates u"
    by (simp add: filteredUpdates_allowed no_updates_def)
  then have indep: "bulk_update now st user ids u =
        bulk_update now st user ids
          (no_updates\<lparr>u_published := u_published u, u_category := u_category u\<rparr>)"
    by (simp add: bulk_update_def)
  show ?thesis
    apply (rule exI [of _ ?n], rule exI [of _ ?st'])
    using r n fields indep by simp
qed

text \<open>Over the articles 1 (of user 7) and 2 (of user 8), user 7 publishes: article 1 alone
  is updated, its title is not, and \<open>modifiedCount\<close> is 1.\<close>

theorem bulk_update_partial_witness:
  "bulk_update 500 two_authors 7 [1, 2]
       (no_updates\<lparr>u_published := Some True, u_title := Some ''X''\<rparr>)
     = (Inr 1,
        \<lparr>docs = [(published_at 500 (sample_article 1 7))\<lparr>updatedAt := 500\<rparr>, sample_article 2 8],
         trace = []\<rparr>)
   \<and> title ((published_at 500 (sample_article 1 7))\<lparr>updatedAt := 500\<rparr>) = ''T''"
proof -
  let ?u = "no_updates\<lparr>u_published := Some True, u_title := Some ''X''\<rparr>"
  have h: "[1, 2::oid] \<noteq> []" "u_published ?u \<noteq> None \<or> u_category ?u \<noteq> None"
    by (simp_all add: no_updates_def)
  show ?thesis
    using bulk_update_partial [OF h, of 500 two_authors 7]
    by (simp add: bulk_update_def filteredUpdates_def keep_def allowedUpdates_def
        stamp_publishedAt_def update_one_def assign_def owned_in_def two_authors_def
        published_at_def sample_article_def no_updates_def or_else_def)
qed

section \<open>Properties of trending\<close>

text \<open>The route \<open>/:id\<close> is registered before \<open>/trending\<close> and matches the path
  \<open>/trending\<close>: no \<open>GET\<close> request is handed to the handler of \<open>/trending\<close>. The
  properties below are those of the handler.\<close>

lemma dispatch_trending: "dispatch_get [''trending''] = Some GetArticle"
  by (simp add: dispatch_get_def get_routes_def route_matches_def)

lemma trending_not_dispatched: "dispatch_get path \<noteq> Some Trending"
proof (cases "route_matches [Param] path")
  case True
  then have "dispatch_get path = Some GetArticle"
    by (auto simp: dispatch_get_def get_routes_def route_matches_def list_all2_Cons1)
  then show ?thesis by simp
next
  case False
  then have "\<not> route_matches [Lit ''trending''] path"
    by (auto simp: route_matches_def list_all2_Cons1)
  then show ?thesis
    by (auto simp: dispatch_get_def get_routes_def split: if_splits)
qed

text \<open>No like has a field \<open>length\<close>: the sort key \<open>likes.length\<close> is null for every
  article, whatever its likes.\<close>

lemma likes_length_null: "likes_length a = None"
proof -
  have "List.map_filter id (map (\<lambda>l. like_field l ''length'') ls) = []" for ls :: "like list"
    by (induction ls) (simp_all add: like_field_def)
  then show ?thesis by (simp add: likes_length_def array_sort_key_def)
qed

text \<open>So the order of the response is: views descending, then \<open>publishedAt\<close> descending.\<close>

lemma trending_before_views_date:
  "trending_before x y =
     (views y < views x \<or> (views x = views y \<and> key_ge (publishedAt x) (publishedAt y)))"
  by (simp add: trending_before_def likes_length_null key_gt_def)

lemma key_ge_total: "key_ge x y \<or> key_ge y x"
  by (auto simp: key_ge_def split: option.splits)

lemma key_ge_trans: "key_ge x y \<Longrightarrow> key_ge y z \<Longrightarrow> key_ge x z"
  by (auto simp: key_ge_def split: option.splits)

lemma trending_before_total: "trending_before x y \<or> trending_before y x"
  using key_ge_total [of "publishedAt x" "publishedAt y"]
  by (auto simp: trending_before_views_date)

lemma trending_before_trans:
  "trending_before x y \<Longrightarrow> trending_before y z \<Longrightarrow> trending_before x z"
  using key_ge_trans [of "publishedAt x" "publishedAt y" "publishedAt z"]
  by (auto simp: trending_before_views_date)

lemma sorted_wrt_insort_by:
  assumes total: "\<And>x y. before x y \<or> before y x"
    and trans: "\<And>x y z. before x y \<Longrightarrow> before y z \<Longrightarrow> before x z"
  shows "sorted_wrt before xs \<Longrightarrow> sorted_wrt before (insort_by before x xs)"
proof (induction xs)
  case Nil
  then show ?case by simp
next
  case (Cons y ys)
  show ?case
  proof (cases "before x y")
    case True
    then have "\<forall>z \<in> set ys. before x z"
      using Cons.prems trans by auto
    with True Cons.prems show ?thesis by simp
  next
    case False
    then have "before y x" using total by blast
    moreover have "sorted_wrt before (insort_by before x ys)"
      using Cons by simp
    ultimately show ?thesis
      using False Cons.prems by (auto simp: set_insort_by)
  qed
qed

lemma sorted_wrt_sort_by:
  assumes "\<And>x y. before x y \<or> before y x"
    and "\<And>x y z. before x y \<Longrightarrow> before y z \<Longrightarrow> before x z"
  shows "sorted_wrt before (sort_by before xs)"
proof (induction xs)
  case Nil
  then show ?case by (simp add: sort_by_def)
next
  case (Cons x xs)
  have "sort_by before (x # xs) = insort_by before x (sort_by before xs)"
    by (simp add: sort_by_def)
  then show ?case
    using Cons sorted_wrt_insort_by [of before "sort_by before xs" x] assms by auto
qed

text \<open>The candidates of \<open>/trending\<close> are the published articles whose \<open>publishedAt\<close> is
  not older than \<open>days\<close> days, and the response lists them by views, then by
  \<open>publishedAt\<close>, each descending.\<close>

lemma get_trending_response:
  assumes "get_trending now st q = Inr r"
  shows "set (r_articles r) \<subseteq>
           {a \<in> set (docs st). published a \<and>
              (\<exists>t. publishedAt a = Some t \<and> now - parse_or (t_days q) 7 * day_ms \<le> t)}"
    and "r_total r = length (filter (\<lambda>a. published a \<and>
              (\<exists>t. publishedAt a = Some t \<and> now - parse_or (t_days q) 7 * day_ms \<le> t)) (docs st))"
    and "sorted_wrt trending_before (r_articles r)"
proof -
  let ?found = "filter (trending_filter (dateThreshold now (parse_or (t_days q) 7))) (docs st)"
  let ?sorted = "sort_by trending_before ?found"
  obtain ys where ys: "skip_limit ((parse_or (t_page q) 1 - 1) * parse_or (t_limit q) 10)
      (parse_or (t_limit q) 10) ?sorted = Inr ys"
    and r: "r_articles r = ys" "r_total r = length ?found"
    using assms by (auto simp: get_trending_def Let_def split: sum.splits)
  have f: "trending_filter (dateThreshold now (parse_or (t_days q) 7)) =
      (\<lambda>a. published a \<and>
         (\<exists>t. publishedAt a = Some t \<and> now - parse_or (t_days q) 7 * day_ms \<le> t))"
    by (auto simp: trending_filter_def dateThreshold_def split: option.splits)
  have "set ys \<subseteq> set ?sorted" using ys by (rule skip_limit_subset)
  then show "set (r_articles r) \<subseteq>
           {a \<in> set (docs st). published a \<and>
              (\<exists>t. publishedAt a = Some t \<and> now - parse_or (t_days q) 7 * day_ms \<le> t)}"
    using r(1) by (auto simp: set_sort_by f)
  show "r_total r = length (filter (\<lambda>a. published a \<and>
              (\<exists>t. publishedAt a = Some t \<and> now - parse_or (t_days q) 7 * day_ms \<le> t)) (docs st))"
    using r(2) by (simp add: f)
  have "sorted_wrt trending_before ?sorted"
    using trending_before_total trending_before_trans by (rule sorted_wrt_sort_by)
  then have "sorted_wrt trending_before (take n (drop k ?sorted))" for n k
    by (intro sorted_wrt_take sorted_wrt_drop)
  moreover have "\<exists>n k. ys = take n (drop k ?sorted)"
    using ys by (auto simp: skip_limit_def split: if_splits)
  ultimately show "sorted_wrt trending_before (r_articles r)"
    using r(1) by auto
qed

text \<open>With \<open>days = 7\<close>, an article published 8 days ago is left out and an article
  published 6 days ago is listed.\<close>

lemma trending_window_example:
  "map_sum id (\<lambda>r. map aid (r_articles r))
     (get_trending (10 * day_ms)
        \<lparr>docs = [published_at (2 * day_ms) (sample_article 1 7),
                 published_at (4 * day_ms) (sample_article 2 7)], trace = []\<rparr>
        (default_trending\<lparr>t_days := Some 7\<rparr>)) = Inr [2]"
  by (simp add: get_trending_def parse_or_def default_trending_def skip_limit_def sort_by_def
      trending_filter_def dateThreshold_def day_ms_def published_at_def sample_article_def Let_def)

text \<open>
  Claim C7 (trending). The claim: the candidates are the published articles of the last
  \<open>N\<close> days, ordered by views, then by the number of likes, then by \<open>publishedAt\<close>,
  each descending. The sort key \<open>likes.length\<close> is null for every article, so the
  number of likes never decides: of two articles with 10 views each, the one published
  later and without likes is listed before the one with two likes.
\<close>

theorem trending_ignores_likes:
  "map_sum id (\<lambda>r. map aid (r_articles r))
     (get_trending (10 * day_ms)
        \<lparr>docs = [(published_at (8 * day_ms) (sample_article 2 7))\<lparr>views := 10, likes := likes_of [3, 4]\<rparr>,
                 (published_at (9 * day_ms) (sample_article 1 7))\<lparr>views := 10\<rparr>],
         trace = []\<rparr> default_trending) = Inr [1, 2]
   \<and> map aid (sort_by spec_trending_before
        [(published_at (8 * day_ms) (sample_article 2 7))\<lparr>views := 10, likes := likes_of [3, 4]\<rparr>,
         (published_at (9 * day_ms) (sample_article 1 7))\<lparr>views := 10\<rparr>]) = [2, 1]"
  by (simp add: get_trending_def parse_or_def default_trending_def skip_limit_def sort_by_def
      trending_filter_def dateThreshold_def day_ms_def published_at_def sample_article_def
      trending_before_views_date key_ge_def spec_trending_before_def likes_of_def Let_def)

end
